theory Spec2Isabelle
  imports Main "HOL-Library.Word"
begin

section \<open>JavaScript strings and the built-ins the component calls\<close>

text \<open>
  A JavaScript string is a sequence of UTF-16 code units and \<^verbatim>\<open>length\<close> counts code
  units, so a string is a list of 16-bit words. The three characters the component
  names are single code units: the space U+0020, the horizontal ellipsis U+2026 and the
  em dash U+2014.
\<close>

type_synonym jschar = "16 word"
type_synonym jsstring = "jschar list"

definition SPACE :: jschar where
  "SPACE = 0x20"

definition ELLIPSIS :: jschar where
  "ELLIPSIS = 0x2026"

definition EM_DASH :: jschar where
  "EM_DASH = 0x2014"

text \<open>An ASCII literal of the source, as code units.\<close>

definition js :: "string \<Rightarrow> jsstring" where
  "js s = map of_char s"

text \<open>
  \<^verbatim>\<open>String.prototype.trim\<close> strips the WhiteSpace and LineTerminator code points of
  ECMAScript from both ends: TAB, LF, VT, FF, CR, SP, NBSP, U+1680, U+2000 to U+200A,
  U+2028, U+2029, U+202F, U+205F, U+3000 and the byte order mark U+FEFF.
\<close>

definition isWhiteSpace :: "jschar \<Rightarrow> bool" where
  "isWhiteSpace c \<longleftrightarrow>
     c = 0x9 \<or> c = 0xA \<or> c = 0xB \<or> c = 0xC \<or> c = 0xD \<or> c = 0x20 \<or> c = 0xA0 \<or>
     c = 0x1680 \<or> (0x2000 \<le> c \<and> c \<le> 0x200A) \<or> c = 0x2028 \<or> c = 0x2029 \<or>
     c = 0x202F \<or> c = 0x205F \<or> c = 0x3000 \<or> c = 0xFEFF"

definition trim :: "jsstring \<Rightarrow> jsstring" where
  "trim s = rev (dropWhile isWhiteSpace (rev (dropWhile isWhiteSpace s)))"

text \<open>
  \<^verbatim>\<open>s.slice(start, end)\<close> with integer arguments: a negative index counts from the
  end of the string, every index is clamped to \<open>0 .. length\<close>, and the result is empty
  when the clamped end is not past the clamped start.
\<close>

definition slice :: "jsstring \<Rightarrow> int \<Rightarrow> int \<Rightarrow> jsstring" where
  "slice s start fin =
     (let len = int (length s);
          lo = (if start < 0 then max (len + start) 0 else min start len);
          hi = (if fin < 0 then max (len + fin) 0 else min fin len)
      in take (nat (hi - lo)) (drop (nat lo) s))"

text \<open>
  \<^verbatim>\<open>s.lastIndexOf(c)\<close> for a one-character search string: the search runs backwards
  from the end of the string; the answer is the greatest index holding \<open>c\<close>, and \<open>-1\<close>
  when there is none.
\<close>

definition lastIndexOf :: "jsstring \<Rightarrow> jschar \<Rightarrow> int" where
  "lastIndexOf s c =
     (if c \<in> set s
      then int (length s) - 1 - int (length (takeWhile (\<lambda>x. x \<noteq> c) (rev s)))
      else - 1)"

text \<open>\<^verbatim>\<open>Array.prototype.join\<close> on an array of strings.\<close>

fun join :: "jsstring list \<Rightarrow> jsstring \<Rightarrow> jsstring" where
  "join [] sep = []"
| "join [x] sep = x"
| "join (x # y # ys) sep = x @ sep @ join (y # ys) sep"

section \<open>The component's helpers\<close>

text \<open>
  \<^verbatim>\<open>truncate(text, limit)\<close>. The text is \<open>None\<close> when the argument is absent
  (\<^verbatim>\<open>null\<close> or \<^verbatim>\<open>undefined\<close>); \<^verbatim>\<open>!text\<close> holds for an absent text and for the
  empty string. The limit is an integer-valued number, for which
  \<^verbatim>\<open>Math.floor(limit * 0.5)\<close> is \<open>limit div 2\<close> (rounding towards minus infinity).
\<close>

definition truncate :: "jsstring option \<Rightarrow> int \<Rightarrow> jsstring" where
  "truncate text limit =
     (case text of
        None \<Rightarrow> []
      | Some t \<Rightarrow>
          if t = [] then []
          else if int (length t) \<le> limit then t
          else
            let clipped = slice t 0 (limit - 1);
                lastSpace = lastIndexOf clipped SPACE
            in if lastSpace > limit div 2
               then slice clipped 0 lastSpace @ [ELLIPSIS]
               else clipped @ [ELLIPSIS])"

text \<open>The character limits of the component.\<close>

definition HL_LIMIT :: int where
  "HL_LIMIT = 30"

definition DESC_LIMIT :: int where
  "DESC_LIMIT = 90"

text \<open>
  The body of \<^verbatim>\<open>getPreviewHeadline\<close>, with the array of headlines and the constant
  \<^verbatim>\<open>HL_LIMIT\<close> it reads from the enclosing component taken as parameters.
\<close>

definition composeHeadlinePreview :: "jsstring list \<Rightarrow> int \<Rightarrow> jsstring" where
  "composeHeadlinePreview headlines hl_limit =
     (let nonEmpty = filter (\<lambda>h. int (length (trim h)) > 0) headlines
      in if length nonEmpty = 0 then js ''Your headline here''
         else
           let joined = join nonEmpty ([SPACE, EM_DASH, SPACE])
           in truncate (Some joined) (hl_limit * 2 + 15))"

definition getPreviewHeadline :: "jsstring list \<Rightarrow> jsstring" where
  "getPreviewHeadline headlines = composeHeadlinePreview headlines HL_LIMIT"

text \<open>
  The body of \<^verbatim>\<open>getPreviewDescription\<close>, with the array of descriptions and the
  constant \<^verbatim>\<open>DESC_LIMIT\<close> taken as parameters.
\<close>

definition composeDescriptionPreview :: "jsstring list \<Rightarrow> int \<Rightarrow> jsstring" where
  "composeDescriptionPreview descriptions desc_limit =
     (let nonEmpty = filter (\<lambda>d. int (length (trim d)) > 0) descriptions
      in if length nonEmpty = 0 then js ''Your description will appear here.''
         else
           let joined = join nonEmpty [SPACE]
           in truncate (Some joined) desc_limit)"

definition getPreviewDescription :: "jsstring list \<Rightarrow> jsstring" where
  "getPreviewDescription descriptions = composeDescriptionPreview descriptions DESC_LIMIT"

text \<open>
  The headline the preview card renders:
  \<^verbatim>\<open>showAllHeadlines ? getPreviewHeadline() : truncate(headlines[0] || "Your headline here", HL_LIMIT)\<close>.
  \<^verbatim>\<open>headlines[0]\<close> is \<^verbatim>\<open>undefined\<close> on an empty array, and \<^verbatim>\<open>||\<close> takes its right
  operand when the left one is \<^verbatim>\<open>undefined\<close> or the empty string.
\<close>

definition firstHeadlineOrPlaceholder :: "jsstring list \<Rightarrow> jsstring" where
  "firstHeadlineOrPlaceholder headlines =
     (case headlines of
        [] \<Rightarrow> js ''Your headline here''
      | h # _ \<Rightarrow> if h = [] then js ''Your headline here'' else h)"

definition renderedHeadline :: "bool \<Rightarrow> jsstring list \<Rightarrow> jsstring" where
  "renderedHeadline showAllHeadlines headlines =
     (if showAllHeadlines then getPreviewHeadline headlines
      else truncate (Some (firstHeadlineOrPlaceholder headlines)) HL_LIMIT)"

section \<open>The last index of a character, as a property\<close>

text \<open>
  \<open>i\<close> is the index of the last \<open>c\<close> in \<open>s\<close>: \<open>s\<close> holds \<open>c\<close> at \<open>i\<close> and nowhere
  after \<open>i\<close>; when \<open>s\<close> holds no \<open>c\<close> the index is \<open>-1\<close>.
\<close>

definition is_last_index_of :: "jschar \<Rightarrow> jsstring \<Rightarrow> int \<Rightarrow> bool" where
  "is_last_index_of c s i \<longleftrightarrow>
     (if c \<in> set s
      then 0 \<le> i \<and> i < int (length s) \<and> s ! nat i = c \<and> c \<notin> set (drop (nat i + 1) s)
      else i = - 1)"

section \<open>Facts about the built-ins\<close>

lemma slice_from_0: "0 \<le> e \<Longrightarrow> slice s 0 e = take (nat e) s"
  by (simp add: slice_def Let_def min_def)

lemma lastIndexOf_miss: "c \<notin> set s \<Longrightarrow> lastIndexOf s c = - 1"
  by (simp add: lastIndexOf_def)

lemma takeWhile_rev_short:
  assumes "c \<in> set s"
  shows "length (takeWhile (\<lambda>x. x \<noteq> c) (rev s)) < length s"
proof -
  have "takeWhile (\<lambda>x. x \<noteq> c) (rev s) \<noteq> rev s"
    using assms by (simp add: takeWhile_eq_all_conv)
  moreover have "length (takeWhile (\<lambda>x. x \<noteq> c) (rev s)) \<le> length (rev s)"
    by (rule length_takeWhile_le)
  ultimately show ?thesis
    by (metis length_rev le_neq_implies_less takeWhile_eq_take take_all order_refl)
qed

lemma lastIndexOf_range: "- 1 \<le> lastIndexOf s c \<and> lastIndexOf s c < int (length s)"
  using takeWhile_rev_short [of c s] by (auto simp: lastIndexOf_def)

lemma lastIndexOf_hit:
  assumes "c \<in> set s"
  shows "0 \<le> lastIndexOf s c" and "s ! nat (lastIndexOf s c) = c"
    and "c \<notin> set (drop (nat (lastIndexOf s c) + 1) s)"
proof -
  let ?k = "length (takeWhile (\<lambda>x. x \<noteq> c) (rev s))"
  have k: "?k < length s" using assms by (rule takeWhile_rev_short)
  have idx: "lastIndexOf s c = int (length s - 1 - ?k)"
    using assms k by (simp add: lastIndexOf_def)
  show "0 \<le> lastIndexOf s c" by (simp add: idx)
  have "\<not> (rev s ! ?k \<noteq> c)"
    using k by (intro nth_length_takeWhile) simp
  then have "rev s ! ?k = c" by simp
  moreover have n: "nat (lastIndexOf s c) = length s - 1 - ?k"
    by (simp only: idx nat_int)
  ultimately show "s ! nat (lastIndexOf s c) = c"
    using k by (simp add: rev_nth)
  have "drop (nat (lastIndexOf s c) + 1) s = rev (take ?k (rev s))"
    using k by (simp add: n take_rev Suc_diff_Suc)
  also have "take ?k (rev s) = takeWhile (\<lambda>x. x \<noteq> c) (rev s)"
    by (simp add: takeWhile_eq_take [symmetric])
  finally show "c \<notin> set (drop (nat (lastIndexOf s c) + 1) s)"
    by (auto dest: set_takeWhileD)
qed

lemma lastIndexOf_is_last: "is_last_index_of c s (lastIndexOf s c)"
  using lastIndexOf_hit [of c s] lastIndexOf_range [of s c]
  by (simp add: is_last_index_of_def lastIndexOf_miss)

lemma is_last_index_of_unique:
  assumes "is_last_index_of c s i" and "is_last_index_of c s j"
  shows "i = j"
proof (cases "c \<in> set s")
  case False
  with assms show ?thesis by (simp add: is_last_index_of_def)
next
  case True
  with assms have i: "0 \<le> i" "nat i < length s" "s ! nat i = c" "c \<notin> set (drop (nat i + 1) s)"
    and j: "0 \<le> j" "nat j < length s" "s ! nat j = c" "c \<notin> set (drop (nat j + 1) s)"
    by (auto simp: is_last_index_of_def)
  have "\<not> nat i < nat j"
  proof
    assume "nat i < nat j"
    then have "s ! nat j \<in> set (drop (nat i + 1) s)"
      using j(2) by (auto simp: in_set_conv_nth intro!: exI [of _ "nat j - (nat i + 1)"])
    with i(4) j(3) show False by simp
  qed
  moreover have "\<not> nat j < nat i"
  proof
    assume "nat j < nat i"
    then have "s ! nat i \<in> set (drop (nat j + 1) s)"
      using i(2) by (auto simp: in_set_conv_nth intro!: exI [of _ "nat i - (nat j + 1)"])
    with j(4) i(3) show False by simp
  qed
  ultimately show ?thesis using i(1) j(1) by linarith
qed

lemma truncate_long:
  assumes "1 \<le> limit" and "limit < int (length text)"
  shows "truncate (Some text) limit =
    (let clipped = take (nat (limit - 1)) text; lastSpace = lastIndexOf clipped SPACE
     in if limit div 2 < lastSpace then take (nat lastSpace) clipped @ [ELLIPSIS]
        else clipped @ [ELLIPSIS])"
proof -
  have ne: "text \<noteq> []" using assms by auto
  have clip: "slice text 0 (limit - 1) = take (nat (limit - 1)) text"
    using assms by (simp add: slice_from_0)
  have "limit div 2 < ls \<Longrightarrow> slice s 0 ls = take (nat ls) s" for ls s
    using assms by (intro slice_from_0) linarith
  then show ?thesis
    using assms ne by (simp add: truncate_def clip Let_def)
qed

lemma length_truncate_le:
  assumes "1 \<le> limit"
  shows "int (length (truncate text limit)) \<le> limit"
proof (cases "text")
  case None
  then show ?thesis using assms by (simp add: truncate_def)
next
  case (Some t)
  show ?thesis
  proof (cases "int (length t) \<le> limit")
    case True
    then show ?thesis using assms Some by (simp add: truncate_def)
  next
    case False
    then have "limit < int (length t)" by simp
    from truncate_long [OF assms this] show ?thesis
      using assms Some by (auto simp: Let_def)
  qed
qed

lemma truncate_nonempty: "t \<noteq> [] \<Longrightarrow> truncate (Some t) limit \<noteq> []"
  by (simp add: truncate_def Let_def)

lemma trim_eq_Nil_iff: "trim s = [] \<longleftrightarrow> (\<forall>c \<in> set s. isWhiteSpace c)"
proof -
  have "trim s = [] \<longleftrightarrow> (\<forall>c \<in> set (dropWhile isWhiteSpace s). isWhiteSpace c)"
    by (simp add: trim_def dropWhile_eq_Nil_conv)
  also have "\<dots> \<longleftrightarrow> dropWhile isWhiteSpace s = []"
  proof
    assume all: "\<forall>c \<in> set (dropWhile isWhiteSpace s). isWhiteSpace c"
    show "dropWhile isWhiteSpace s = []"
    proof (rule ccontr)
      assume ne: "dropWhile isWhiteSpace s \<noteq> []"
      then have "\<not> isWhiteSpace (hd (dropWhile isWhiteSpace s))"
        by (rule hd_dropWhile)
      moreover have "hd (dropWhile isWhiteSpace s) \<in> set (dropWhile isWhiteSpace s)"
        using ne by (rule hd_in_set)
      ultimately show False using all by blast
    qed
  qed (auto dest: set_dropWhileD)
  also have "\<dots> \<longleftrightarrow> (\<forall>c \<in> set s. isWhiteSpace c)"
    by (simp add: dropWhile_eq_Nil_conv)
  finally show ?thesis .
qed

lemma join_nonempty: "xs \<noteq> [] \<Longrightarrow> \<forall>x \<in> set xs. x \<noteq> [] \<Longrightarrow> join xs sep \<noteq> []"
  by (induction xs sep rule: join.induct) auto

section \<open>Facts about the helpers\<close>

lemma survivor_nonempty: "trim h \<noteq> [] \<Longrightarrow> h \<noteq> []"
  by (auto simp: trim_def)

lemma join_survivors_nonempty:
  assumes "filter (\<lambda>h. trim h \<noteq> []) xs \<noteq> []"
  shows "join (filter (\<lambda>h. trim h \<noteq> []) xs) sep \<noteq> []"
  using assms by (intro join_nonempty) (auto dest: survivor_nonempty)

lemma composeHeadlinePreview_unfold:
  "composeHeadlinePreview headlines hl =
     (if filter (\<lambda>h. trim h \<noteq> []) headlines = [] then js ''Your headline here''
      else truncate (Some (join (filter (\<lambda>h. trim h \<noteq> []) headlines) [SPACE, EM_DASH, SPACE]))
             (2 * hl + 15))"
  by (simp add: composeHeadlinePreview_def Let_def mult.commute)

lemma composeDescriptionPreview_unfold:
  "composeDescriptionPreview descriptions dl =
     (if filter (\<lambda>d. trim d \<noteq> []) descriptions = []
      then js ''Your description will appear here.''
      else truncate (Some (join (filter (\<lambda>d. trim d \<noteq> []) descriptions) [SPACE])) dl)"
  by (simp add: composeDescriptionPreview_def Let_def)

lemma placeholder_lengths:
  "length (js ''Your headline here'') = 18"
  "length (js ''Your description will appear here.'') = 34"
  by (simp_all add: js_def)

lemma length_composeHeadlinePreview:
  assumes "1 \<le> hl"
  shows "int (length (composeHeadlinePreview headlines hl)) \<le> max (2 * hl + 15) 18"
proof (cases "filter (\<lambda>h. trim h \<noteq> []) headlines = []")
  case True
  then have "int (length (composeHeadlinePreview headlines hl)) = 18"
    by (simp add: composeHeadlinePreview_unfold placeholder_lengths)
  then show ?thesis by linarith
next
  case False
  have "1 \<le> 2 * hl + 15" using assms by simp
  then have "int (length (truncate
      (Some (join (filter (\<lambda>h. trim h \<noteq> []) headlines) [SPACE, EM_DASH, SPACE]))
      (2 * hl + 15))) \<le> 2 * hl + 15"
    by (rule length_truncate_le)
  then have "int (length (composeHeadlinePreview headlines hl)) \<le> 2 * hl + 15"
    using False by (simp add: composeHeadlinePreview_unfold)
  then show ?thesis by linarith
qed

lemma length_composeDescriptionPreview:
  assumes "1 \<le> dl"
  shows "int (length (composeDescriptionPreview descriptions dl)) \<le> max dl 34"
proof (cases "filter (\<lambda>d. trim d \<noteq> []) descriptions = []")
  case True
  then show ?thesis
    by (simp add: composeDescriptionPreview_unfold placeholder_lengths)
next
  case False
  have "int (length (truncate
      (Some (join (filter (\<lambda>d. trim d \<noteq> []) descriptions) [SPACE])) dl)) \<le> dl"
    using assms by (rule length_truncate_le)
  then have "int (length (composeDescriptionPreview descriptions dl)) \<le> dl"
    using False by (simp add: composeDescriptionPreview_unfold)
  then show ?thesis by linarith
qed

lemma truncate_placeholder:
  "truncate (Some (js ''Your headline here'')) HL_LIMIT = js ''Your headline here''"
  by (simp add: truncate_def HL_LIMIT_def js_def)

lemma length_renderedHeadline_single:
  "int (length (renderedHeadline False headlines)) \<le> HL_LIMIT"
proof -
  have "1 \<le> HL_LIMIT" by (simp add: HL_LIMIT_def)
  then show ?thesis
    unfolding renderedHeadline_def if_False by (rule length_truncate_le)
qed

section \<open>Truncation\<close>

text \<open>
  C1. For a text longer than the limit and a limit of at least 1, \<open>truncate\<close> takes
  the first \<open>limit - 1\<close> characters, finds the index of the last space among them
  (the value \<open>lastIndexOf\<close> returns), and returns the clipped text up to that space
  followed by one ellipsis when the index is greater than \<open>limit div 2\<close>, and the
  clipped text followed by one ellipsis otherwise. In particular
  \<open>truncate "Buy now and save today" 10 = "Buy now\<dots>"\<close>.
\<close>

theorem truncate_clips_at_last_space:
  "(1 \<le> limit \<and> limit < int (length t) \<and> is_last_index_of SPACE (take (nat (limit - 1)) t) ls \<longrightarrow>
      ls = lastIndexOf (take (nat (limit - 1)) t) SPACE \<and>
      truncate (Some t) limit =
        (if limit div 2 < ls then take (nat ls) (take (nat (limit - 1)) t) @ [ELLIPSIS]
         else take (nat (limit - 1)) t @ [ELLIPSIS])) \<and>
   truncate (Some (js ''Buy now and save today'')) 10 = js ''Buy now'' @ [ELLIPSIS]"
proof (intro conjI impI)
  assume h: "1 \<le> limit \<and> limit < int (length t) \<and>
    is_last_index_of SPACE (take (nat (limit - 1)) t) ls"
  then show ls: "ls = lastIndexOf (take (nat (limit - 1)) t) SPACE"
    by (intro is_last_index_of_unique [of SPACE "take (nat (limit - 1)) t"] lastIndexOf_is_last) simp
  from h have "1 \<le> limit" and "limit < int (length t)" by simp_all
  from truncate_long [OF this]
  show "truncate (Some t) limit =
        (if limit div 2 < ls then take (nat ls) (take (nat (limit - 1)) t) @ [ELLIPSIS]
         else take (nat (limit - 1)) t @ [ELLIPSIS])"
    by (simp add: Let_def ls)
next
  show "truncate (Some (js ''Buy now and save today'')) 10 = js ''Buy now'' @ [ELLIPSIS]"
    by (simp add: truncate_def js_def slice_def lastIndexOf_def SPACE_def ELLIPSIS_def)
qed

theorem truncate_clips_at_last_space_witness:
  "(1::int) \<le> 10 \<and> 10 < int (length (js ''Buy now and save today'')) \<and>
   take (nat (10 - 1)) (js ''Buy now and save today'') = js ''Buy now a'' \<and>
   is_last_index_of SPACE (js ''Buy now a'') 7 \<and>
   (10::int) div 2 = 5 \<and>
   truncate (Some (js ''Buy now and save today'')) 10 = js ''Buy now'' @ [ELLIPSIS]"
proof -
  have a: "(1::int) \<le> 10 \<and> 10 < int (length (js ''Buy now and save today''))"
    by (simp add: js_def)
  have b: "take (nat (10 - 1)) (js ''Buy now and save today'') = js ''Buy now a''"
    by (simp add: js_def)
  have c: "is_last_index_of SPACE (js ''Buy now a'') 7"
    by (simp add: is_last_index_of_def js_def SPACE_def)
  have d: "take (nat 7) (js ''Buy now a'') = js ''Buy now''"
    by (simp add: js_def)
  from truncate_clips_at_last_space [of 10 "js ''Buy now and save today''" 7] a b c d
  have "truncate (Some (js ''Buy now and save today'')) 10 =
     (if (10::int) div 2 < 7 then js ''Buy now'' @ [ELLIPSIS] else js ''Buy now a'' @ [ELLIPSIS])"
    by (simp only: simp_thms)
  with a b c show ?thesis by simp
qed

text \<open>
  C5. For a limit of at least 1 and a text longer than the limit, the length of the
  truncated text is at most the limit.
\<close>

theorem truncate_long_within_limit:
  "1 \<le> limit \<Longrightarrow> limit < int (length t) \<Longrightarrow> int (length (truncate (Some t) limit)) \<le> limit"
  by (rule length_truncate_le)

theorem truncate_long_within_limit_witness:
  "(1::int) \<le> 10 \<and> 10 < int (length (js ''Supercalifragilisticexpialidocious'')) \<and>
   int (length (truncate (Some (js ''Supercalifragilisticexpialidocious'')) 10)) \<le> 10"
  using truncate_long_within_limit [of 10 "js ''Supercalifragilisticexpialidocious''"]
  by (simp add: js_def)

text \<open>
  C6. An absent text and the empty text give the empty string, and a text whose length
  is at most the limit is returned unchanged, with no marker. This holds for every
  integer limit, so for every limit of at least 1.
\<close>

theorem truncate_absent_empty_short:
  "truncate None limit = [] \<and> truncate (Some []) limit = [] \<and>
   (int (length t) \<le> limit \<longrightarrow> truncate (Some t) limit = t)"
  by (simp add: truncate_def)

theorem truncate_absent_empty_short_witness:
  "int (length (js ''Buy now'')) \<le> 30 \<and> truncate (Some (js ''Buy now'')) 30 = js ''Buy now'' \<and>
   truncate None 30 = [] \<and> truncate (Some []) 30 = []"
  using truncate_absent_empty_short [of 30 "js ''Buy now''"]
  by (simp add: js_def)

text \<open>
  C7. At limit 1, a text of more than one character is clipped to no characters, the
  search for a space answers \<open>-1\<close>, which is not past the midpoint \<open>1 div 2 = 0\<close>,
  and the result is the ellipsis alone.
\<close>

theorem truncate_limit_one:
  "1 < length t \<longrightarrow>
     slice t 0 (1 - 1) = [] \<and> lastIndexOf (slice t 0 (1 - 1)) SPACE = - 1 \<and>
     \<not> (1 div 2 < lastIndexOf (slice t 0 (1 - 1)) SPACE) \<and>
     truncate (Some t) 1 = [ELLIPSIS]"
  by (auto simp: truncate_def slice_def lastIndexOf_def Let_def)

theorem truncate_limit_one_witness:
  "1 < length (js ''a b'') \<and> truncate (Some (js ''a b'')) 1 = [ELLIPSIS]"
  using truncate_limit_one [of "js ''a b''"]
  by (simp add: js_def)

text \<open>
  C8. For a limit of at least 1 the output of \<open>truncate\<close> has length at most the limit,
  and truncating it again at the same limit returns it unchanged.
\<close>

theorem truncate_idempotent:
  "1 \<le> limit \<Longrightarrow>
     int (length (truncate t limit)) \<le> limit \<and>
     truncate (Some (truncate t limit)) limit = truncate t limit"
proof
  assume "1 \<le> limit"
  then show le: "int (length (truncate t limit)) \<le> limit"
    by (rule length_truncate_le)
  show "truncate (Some (truncate t limit)) limit = truncate t limit"
    using le by (simp add: truncate_def [of "Some (truncate t limit)"])
qed

theorem truncate_idempotent_witness:
  "(1::int) \<le> 10 \<and>
   truncate (Some (js ''Buy now and save today'')) 10 \<noteq> js ''Buy now and save today'' \<and>
   truncate (Some (truncate (Some (js ''Buy now and save today'')) 10)) 10 =
     truncate (Some (js ''Buy now and save today'')) 10"
proof -
  have "truncate (Some (js ''Buy now and save today'')) 10 = js ''Buy now'' @ [ELLIPSIS]"
    by (simp add: truncate_def js_def slice_def lastIndexOf_def SPACE_def ELLIPSIS_def)
  then have "truncate (Some (js ''Buy now and save today'')) 10 \<noteq> js ''Buy now and save today''"
    by (simp add: js_def)
  then show ?thesis
    using truncate_idempotent [of 10 "Some (js ''Buy now and save today'')"] by simp
qed

section \<open>Preview composition\<close>

text \<open>
  C2. The headline preview keeps, in their order, exactly the entries whose trimmed form
  is not empty. With no survivor it is the literal \<open>Your headline here\<close>; otherwise it is
  \<open>truncate\<close> of the survivors joined with space, em dash, space, at the limit
  \<open>2 * headlineLimit + 15\<close>, which is 75 for the component's headline limit of 30.
\<close>

theorem composeHeadlinePreview_policy:
  "composeHeadlinePreview headlines hl =
     (let survivors = filter (\<lambda>h. trim h \<noteq> []) headlines
      in if survivors = [] then js ''Your headline here''
         else truncate (Some (join survivors (js '' '' @ [EM_DASH] @ js '' ''))) (2 * hl + 15)) \<and>
   getPreviewHeadline headlines = composeHeadlinePreview headlines 30 \<and>
   2 * HL_LIMIT + 15 = 75"
  by (simp add: composeHeadlinePreview_unfold getPreviewHeadline_def HL_LIMIT_def Let_def js_def
      SPACE_def)

theorem composeHeadlinePreview_policy_witness:
  "filter (\<lambda>h. trim h \<noteq> []) [js ''Buy now'', js '' '', js ''Free shipping'', [], js ''Limited offer'']
     = [js ''Buy now'', js ''Free shipping'', js ''Limited offer''] \<and>
   composeHeadlinePreview [js ''Buy now'', js '' '', js ''Free shipping'', [], js ''Limited offer''] 30 =
     js ''Buy now'' @ js '' '' @ [EM_DASH] @ js '' '' @ js ''Free shipping'' @ js '' '' @ [EM_DASH] @ js '' '' @
     js ''Limited offer'' \<and>
   composeHeadlinePreview [[], [], []] 30 = js ''Your headline here''"
proof -
  have f: "filter (\<lambda>h. trim h \<noteq> [])
      [js ''Buy now'', js '' '', js ''Free shipping'', [], js ''Limited offer'']
     = [js ''Buy now'', js ''Free shipping'', js ''Limited offer'']"
    by (simp add: trim_eq_Nil_iff js_def isWhiteSpace_def)
  have g: "filter (\<lambda>h. trim h \<noteq> []) [[], [], []] = []"
    by (simp add: trim_def)
  have t: "truncate (Some (join [js ''Buy now'', js ''Free shipping'', js ''Limited offer'']
       (js '' '' @ [EM_DASH] @ js '' ''))) (2 * 30 + 15) =
     js ''Buy now'' @ js '' '' @ [EM_DASH] @ js '' '' @ js ''Free shipping'' @ js '' '' @ [EM_DASH] @ js '' '' @
     js ''Limited offer''"
    by (simp add: truncate_def js_def)
  show ?thesis
    using composeHeadlinePreview_policy
        [of "[js ''Buy now'', js '' '', js ''Free shipping'', [], js ''Limited offer'']" 30]
      composeHeadlinePreview_policy [of "[[], [], []]" 30]
    by (simp only: f g t Let_def list.simps if_True if_False simp_thms)
qed

text \<open>
  C3. The description preview keeps, in their order, exactly the entries whose trimmed
  form is not empty. With no survivor it is the literal
  \<open>Your description will appear here.\<close>; otherwise it is \<open>truncate\<close> of the survivors
  joined with one space, at the description limit itself, which is 90 in the component.
\<close>

theorem composeDescriptionPreview_policy:
  "composeDescriptionPreview descriptions dl =
     (let survivors = filter (\<lambda>d. trim d \<noteq> []) descriptions
      in if survivors = [] then js ''Your description will appear here.''
         else truncate (Some (join survivors (js '' ''))) dl) \<and>
   getPreviewDescription descriptions = composeDescriptionPreview descriptions 90"
  by (simp add: composeDescriptionPreview_unfold getPreviewDescription_def DESC_LIMIT_def Let_def
      js_def SPACE_def)

theorem composeDescriptionPreview_policy_witness:
  "filter (\<lambda>d. trim d \<noteq> []) [js ''Fast delivery.'', js ''  '', js ''Great prices.'']
     = [js ''Fast delivery.'', js ''Great prices.''] \<and>
   composeDescriptionPreview [js ''Fast delivery.'', js ''  '', js ''Great prices.''] 90 =
     js ''Fast delivery. Great prices.'' \<and>
   composeDescriptionPreview [js ''Fast delivery.'', js ''  '', js ''Great prices.''] 20 =
     js ''Fast delivery.'' @ [ELLIPSIS] \<and>
   composeDescriptionPreview [[], []] 90 = js ''Your description will appear here.''"
proof -
  have f: "filter (\<lambda>d. trim d \<noteq> []) [js ''Fast delivery.'', js ''  '', js ''Great prices.'']
     = [js ''Fast delivery.'', js ''Great prices.'']"
    by (simp add: trim_eq_Nil_iff js_def isWhiteSpace_def)
  have g: "filter (\<lambda>d. trim d \<noteq> []) [[], []] = []"
    by (simp add: trim_def)
  have t: "truncate (Some (join [js ''Fast delivery.'', js ''Great prices.''] (js '' ''))) 90 =
     js ''Fast delivery. Great prices.''"
    by (simp add: truncate_def js_def)
  have u: "truncate (Some (join [js ''Fast delivery.'', js ''Great prices.''] (js '' ''))) 20 =
     js ''Fast delivery.'' @ [ELLIPSIS]"
    by (simp add: truncate_def js_def slice_def lastIndexOf_def SPACE_def)
  show ?thesis
    using composeDescriptionPreview_policy
        [of "[js ''Fast delivery.'', js ''  '', js ''Great prices.'']" 90]
      composeDescriptionPreview_policy
        [of "[js ''Fast delivery.'', js ''  '', js ''Great prices.'']" 20]
      composeDescriptionPreview_policy [of "[[], []]" 90]
    by (simp only: f g t u Let_def list.simps if_True if_False simp_thms)
qed

text \<open>
  C4. The length of a preview never exceeds its governing limit plus one character for
  the marker, the governing limit being the limit \<open>truncate\<close> is called with:
  \<open>2 * HL_LIMIT + 15\<close> for the joined headlines, \<open>HL_LIMIT\<close> for the single headline and
  \<open>DESC_LIMIT\<close> for the descriptions. With the limit taken as a parameter the bound
  holds for every headline limit of at least 1 (the placeholder of 18 characters fits
  \<open>2 * 1 + 15 + 1\<close>) and for every description limit of at least 33 (the placeholder of
  34 characters is returned as it is, and the component's limit is 90).
\<close>

theorem preview_length_within_governing_limit:
  "length (getPreviewHeadline headlines) \<le> nat (2 * HL_LIMIT + 15) + 1 \<and>
   length (renderedHeadline False headlines) \<le> nat HL_LIMIT + 1 \<and>
   length (getPreviewDescription descriptions) \<le> nat DESC_LIMIT + 1 \<and>
   (1 \<le> hl \<longrightarrow> length (composeHeadlinePreview headlines hl) \<le> nat (2 * hl + 15) + 1) \<and>
   (33 \<le> dl \<longrightarrow> length (composeDescriptionPreview descriptions dl) \<le> nat dl + 1)"
proof (intro conjI impI)
  have "int (length (getPreviewHeadline headlines)) \<le> max (2 * HL_LIMIT + 15) 18"
    unfolding getPreviewHeadline_def
    by (rule length_composeHeadlinePreview) (simp add: HL_LIMIT_def)
  then show "length (getPreviewHeadline headlines) \<le> nat (2 * HL_LIMIT + 15) + 1"
    by (simp add: HL_LIMIT_def)
  show "length (renderedHeadline False headlines) \<le> nat HL_LIMIT + 1"
    using length_renderedHeadline_single [of headlines] by linarith
  have "int (length (getPreviewDescription descriptions)) \<le> max DESC_LIMIT 34"
    unfolding getPreviewDescription_def
    by (rule length_composeDescriptionPreview) (simp add: DESC_LIMIT_def)
  then show "length (getPreviewDescription descriptions) \<le> nat DESC_LIMIT + 1"
    by (simp add: DESC_LIMIT_def)
next
  assume "1 \<le> hl"
  then show "length (composeHeadlinePreview headlines hl) \<le> nat (2 * hl + 15) + 1"
    using length_composeHeadlinePreview [of hl headlines] by linarith
next
  assume "33 \<le> dl"
  then show "length (composeDescriptionPreview descriptions dl) \<le> nat dl + 1"
    using length_composeDescriptionPreview [of dl descriptions] by linarith
qed

theorem preview_length_within_governing_limit_witness:
  "(1::int) \<le> 30 \<and> (33::int) \<le> 90 \<and>
   length (getPreviewHeadline [replicate 100 ELLIPSIS, []]) \<le> 76 \<and>
   length (renderedHeadline False [replicate 100 ELLIPSIS, []]) \<le> 31 \<and>
   length (getPreviewDescription [replicate 100 ELLIPSIS, []]) \<le> 91 \<and>
   length (composeHeadlinePreview [replicate 100 ELLIPSIS, []] 30) \<le> 76 \<and>
   length (composeDescriptionPreview [replicate 100 ELLIPSIS, []] 90) \<le> 91"
  using preview_length_within_governing_limit
    [of "[replicate 100 ELLIPSIS, []]" "[replicate 100 ELLIPSIS, []]" 30 90]
  by (simp add: HL_LIMIT_def DESC_LIMIT_def)

text \<open>
  C9. With the show-all toggle off, the rendered headline is the placeholder exactly
  when the first headline is the empty string; any other first headline is passed to
  \<open>truncate\<close> at \<open>HL_LIMIT\<close>, so a first headline of whitespace only that fits the
  limit, such as one space, is displayed as it is. With the toggle on, headlines that
  are empty after trimming are filtered out and the placeholder is displayed.
\<close>

theorem single_headline_placeholder_only_for_empty:
  "renderedHeadline False (h # rest) =
     (if h = [] then js ''Your headline here'' else truncate (Some h) HL_LIMIT) \<and>
   (h \<noteq> [] \<and> trim h = [] \<and> int (length h) \<le> HL_LIMIT \<longrightarrow>
      renderedHeadline False (h # rest) = h) \<and>
   renderedHeadline False (js '' '' # rest) = js '' '' \<and>
   (trim h = [] \<and> (\<forall>r \<in> set rest. trim r = []) \<longrightarrow>
      renderedHeadline True (h # rest) = js ''Your headline here'')"
proof (intro conjI impI)
  show a: "renderedHeadline False (h # rest) =
     (if h = [] then js ''Your headline here'' else truncate (Some h) HL_LIMIT)"
    by (simp add: renderedHeadline_def firstHeadlineOrPlaceholder_def truncate_placeholder)
  show "renderedHeadline False (js '' '' # rest) = js '' ''"
    by (simp add: renderedHeadline_def firstHeadlineOrPlaceholder_def truncate_def js_def
        HL_LIMIT_def)
next
  assume "h \<noteq> [] \<and> trim h = [] \<and> int (length h) \<le> HL_LIMIT"
  then show "renderedHeadline False (h # rest) = h"
    by (simp add: renderedHeadline_def firstHeadlineOrPlaceholder_def truncate_def)
next
  assume "trim h = [] \<and> (\<forall>r \<in> set rest. trim r = [])"
  then have "filter (\<lambda>h. trim h \<noteq> []) (h # rest) = []"
    by (simp add: filter_empty_conv)
  then show "renderedHeadline True (h # rest) = js ''Your headline here''"
    by (simp only: renderedHeadline_def getPreviewHeadline_def composeHeadlinePreview_unfold
        if_True simp_thms)
qed

theorem single_headline_placeholder_only_for_empty_witness:
  "js '' '' \<noteq> [] \<and> trim (js '' '') = [] \<and> int (length (js '' '')) \<le> HL_LIMIT \<and>
   renderedHeadline False [js '' '', [], []] = js '' '' \<and>
   renderedHeadline True [js '' '', [], []] = js ''Your headline here'' \<and>
   renderedHeadline False [[], js ''Free shipping'', []] = js ''Your headline here''"
proof -
  have a: "js '' '' \<noteq> [] \<and> trim (js '' '') = [] \<and> int (length (js '' '')) \<le> HL_LIMIT"
    by (simp add: trim_eq_Nil_iff js_def isWhiteSpace_def HL_LIMIT_def)
  have b: "trim [] = [] \<and> (\<forall>r \<in> set [[], []]. trim r = [])"
    by (simp add: trim_def)
  note blank = single_headline_placeholder_only_for_empty [of "js '' ''" "[[], []]"]
  from blank a have c: "renderedHeadline False [js '' '', [], []] = js '' ''"
    by blast
  from blank a b have d: "renderedHeadline True [js '' '', [], []] = js ''Your headline here''"
    by simp
  from single_headline_placeholder_only_for_empty [of "[]" "[js ''Free shipping'', []]"]
  have e: "renderedHeadline False [[], js ''Free shipping'', []] = js ''Your headline here''"
    by simp
  from a c d e show ?thesis by blast
qed

text \<open>
  C10. The headline preview and the description preview are never the empty string:
  the placeholders are not empty, the joined survivors are not empty, and \<open>truncate\<close>
  of a text that is not empty is not empty. This holds for every integer limit, so for
  every limit of at least 1.
\<close>

theorem previews_nonempty:
  "composeHeadlinePreview headlines hl \<noteq> [] \<and>
   composeDescriptionPreview descriptions dl \<noteq> [] \<and>
   getPreviewHeadline headlines \<noteq> [] \<and>
   getPreviewDescription descriptions \<noteq> [] \<and>
   (t \<noteq> [] \<longrightarrow> truncate (Some t) limit \<noteq> [])"
proof -
  have h: "composeHeadlinePreview xs l \<noteq> []" for xs l
    using join_survivors_nonempty [of xs "[SPACE, EM_DASH, SPACE]"]
    by (simp add: composeHeadlinePreview_unfold truncate_nonempty js_def)
  have d: "composeDescriptionPreview xs l \<noteq> []" for xs l
    using join_survivors_nonempty [of xs "[SPACE]"]
    by (simp add: composeDescriptionPreview_unfold truncate_nonempty js_def)
  show ?thesis
    by (simp add: h d getPreviewHeadline_def getPreviewDescription_def truncate_nonempty)
qed

theorem previews_nonempty_witness:
  "js ''Buy now'' \<noteq> [] \<and> truncate (Some (js ''Buy now'')) 1 \<noteq> [] \<and>
   composeHeadlinePreview [js ''Buy now'', []] 1 \<noteq> [] \<and>
   composeDescriptionPreview [[], js ''Buy now''] 1 \<noteq> [] \<and>
   getPreviewHeadline [[], []] \<noteq> [] \<and> getPreviewDescription [[], []] \<noteq> []"
  using previews_nonempty [of "[js ''Buy now'', []]" 1 "[[], js ''Buy now'']" 1 "js ''Buy now''" 1]
    previews_nonempty [of "[[], []]" 1 "[[], []]" 1 "js ''Buy now''" 1]
  by (simp add: js_def)

end
